theory Spec2Isabelle
  imports Complex_Main
begin

section \<open>Values of the host language\<close>

text \<open>
  The operator of \<^verbatim>\<open>torch/_higher_order_ops/while_loop.py\<close> works on Python values.
  The universe below holds the values the code tells apart: \<^verbatim>\<open>None\<close>, native
  booleans, integers and floats, tuples and lists, tensors and symbolic integers.

  Of a tensor the code reads \<^verbatim>\<open>size()\<close>, \<^verbatim>\<open>dtype\<close> and its truth value, so a tensor
  is its size, its dtype and the flat list of its elements (a boolean element is 0 or 1).
  A float is only ever tested for being zero.
\<close>

datatype dtype = bool_dtype | uint8 | int32 | int64 | float32 | float64

datatype tensor = Tensor (tsize: "nat list") (tdtype: dtype) (tdata: "rat list")

datatype pyfloat = FloatVal rat | FloatInf | FloatNegInf | FloatNaN

text \<open>
  A symbolic integer is named by its index (\<^verbatim>\<open>u0\<close>, \<^verbatim>\<open>u1\<close>, ... for the unbacked ones);
  a backed one carries the concrete hint its guards are evaluated with.
\<close>

datatype symint = SymInt (sym_index: nat) (sym_hint: "int option")

datatype pyval =
    PNone
  | PBool bool
  | PInt int
  | PFloat pyfloat
  | PTuple "pyval list"
  | PList "pyval list"
  | PTensor tensor
  | PSymInt symint

text \<open>
  An f-string message is kept structured: the fixed text, and the value whose
  \<^verbatim>\<open>type(...)\<close> or \<^verbatim>\<open>str(...)\<close> the source interpolates after it.
\<close>

datatype message = Msg string | MsgType string pyval | MsgVal string pyval

datatype error =
    RuntimeError message
  | AssertionError message
  | TypeError message
  | UnsupportedAliasMutationException message
  | GuardOnDataDependentSymNode symint
  | UserException string

text \<open>
  A callable receives its positional arguments and returns a value or raises.
  Callables are taken to be deterministic functions of their arguments.
\<close>

type_synonym pyfn = "pyval list \<Rightarrow> error + pyval"

subsection \<open>Truth value, \<^verbatim>\<open>isinstance\<close> and argument unpacking\<close>

text \<open>
  \<^verbatim>\<open>bool(v)\<close>, as \<^verbatim>\<open>while pred := ...\<close> takes it. A tensor with exactly one element is
  true iff the element is nonzero and any other tensor raises; a symbolic integer
  is compared with zero through its hint, and raises when it has none.
\<close>

fun truthy :: "pyval \<Rightarrow> error + bool" where
  "truthy PNone = Inr False"
| "truthy (PBool b) = Inr b"
| "truthy (PInt i) = Inr (i \<noteq> 0)"
| "truthy (PFloat f) = Inr (f \<noteq> FloatVal 0)"
| "truthy (PTuple xs) = Inr (xs \<noteq> [])"
| "truthy (PList xs) = Inr (xs \<noteq> [])"
| "truthy (PTensor t) =
     (case tdata t of
        [] \<Rightarrow> Inl (RuntimeError (Msg ''Boolean value of Tensor with no values is ambiguous''))
      | [x] \<Rightarrow> Inr (x \<noteq> 0)
      | _ \<Rightarrow> Inl (RuntimeError
                 (Msg ''Boolean value of Tensor with more than one value is ambiguous'')))"
| "truthy (PSymInt s) =
     (case sym_hint s of
        None \<Rightarrow> Inl (GuardOnDataDependentSymNode s)
      | Some h \<Rightarrow> Inr (h \<noteq> 0))"

text \<open>\<^verbatim>\<open>isinstance(v, tuple)\<close>.\<close>

fun isinstance_tuple :: "pyval \<Rightarrow> bool" where
  "isinstance_tuple (PTuple xs) = True"
| "isinstance_tuple v = False"

text \<open>
  \<^verbatim>\<open>isinstance(v, int)\<close>: \<^verbatim>\<open>bool\<close> is a subclass of \<^verbatim>\<open>int\<close> in Python, so a native
  boolean is an instance of \<^verbatim>\<open>int\<close>; \<^verbatim>\<open>torch.SymInt\<close> is a class of its own.
\<close>

fun isinstance_int :: "pyval \<Rightarrow> bool" where
  "isinstance_int (PInt i) = True"
| "isinstance_int (PBool b) = True"
| "isinstance_int v = False"

text \<open>
  Iteration, as \<^verbatim>\<open>*v\<close> in a call and \<^verbatim>\<open>for arg in v\<close> do it: a tuple or a list
  yields its elements, a tensor of dimension at least one yields its slices along the
  first dimension, anything else raises \<^verbatim>\<open>TypeError\<close>.
\<close>

definition tensor_slices :: "tensor \<Rightarrow> tensor list" where
  "tensor_slices t =
     (let rest = tl (tsize t); m = prod_list rest
      in map (\<lambda>i. Tensor rest (tdtype t) (take m (drop (i * m) (tdata t))))
             [0 ..< hd (tsize t)])"

fun py_iter :: "pyval \<Rightarrow> error + pyval list" where
  "py_iter (PTuple xs) = Inr xs"
| "py_iter (PList xs) = Inr xs"
| "py_iter (PTensor t) =
     (if tsize t = [] then Inl (TypeError (Msg ''iteration over a 0-d tensor''))
      else Inr (map PTensor (tensor_slices t)))"
| "py_iter v = Inl (TypeError (MsgType ''object is not iterable: '' v))"

text \<open>The positional arguments of \<^verbatim>\<open>f(*carried_vals, *additional_inputs)\<close>.\<close>

definition star_args :: "pyval list \<Rightarrow> pyval \<Rightarrow> error + pyval list" where
  "star_args carried_vals additional_inputs =
     (case py_iter additional_inputs of
        Inl e \<Rightarrow> Inl e
      | Inr extra \<Rightarrow> Inr (carried_vals @ extra))"

section \<open>The dense executor\<close>

text \<open>
  \<^verbatim>\<open>_is_valid_cond_fn_output\<close>: a native boolean, or a tensor whose size is
  \<^verbatim>\<open>torch.Size([])\<close> and whose dtype is \<^verbatim>\<open>torch.bool\<close>.
\<close>

fun is_valid_cond_fn_output :: "pyval \<Rightarrow> bool" where
  "is_valid_cond_fn_output (PBool b) = True"
| "is_valid_cond_fn_output (PTensor t) = (tsize t = [] \<and> tdtype t = bool_dtype)"
| "is_valid_cond_fn_output v = False"

text \<open>
  The \<^verbatim>\<open>while\<close> loop of \<^verbatim>\<open>while_loop_dense\<close>. \<^verbatim>\<open>carried_vals\<close> is a tuple whenever the
  loop head is reached (the check before the loop, the assertion in it), so the loop
  state is the list of its elements; \<^verbatim>\<open>carried_inputs\<close> keeps the elements of the
  original tuple, whose length the assertion compares with. The loop may run for
  ever: \<open>None\<close> is divergence, \<open>Some (Inl e)\<close> an exception, \<open>Some (Inr v)\<close> a return.
\<close>

partial_function (option) while_loop_dense_loop ::
  "pyfn \<Rightarrow> pyfn \<Rightarrow> pyval list \<Rightarrow> pyval \<Rightarrow> pyval list \<Rightarrow> (error + pyval) option"
where
  "while_loop_dense_loop cond_fn body_fn carried_inputs additional_inputs carried_vals =
     (case star_args carried_vals additional_inputs of
        Inl e \<Rightarrow> Some (Inl e)
      | Inr args \<Rightarrow>
        (case cond_fn args of
           Inl e \<Rightarrow> Some (Inl e)
         | Inr pred \<Rightarrow>
           (case truthy pred of
              Inl e \<Rightarrow> Some (Inl e)
            | Inr go \<Rightarrow>
              if \<not> go then Some (Inr (PTuple carried_vals))
              else if \<not> is_valid_cond_fn_output pred then
                Some (Inl (RuntimeError (MsgVal
                  ''cond_fn must return a boolean scalar tensor or a bool but got '' pred)))
              else
                (case body_fn args of
                   Inl e \<Rightarrow> Some (Inl e)
                 | Inr out \<Rightarrow>
                   (case out of
                      PTuple ys \<Rightarrow>
                        if length ys \<noteq> length carried_inputs then
                          Some (Inl (AssertionError (Msg
                            ''body_fn should return the same number of elements as carried_inputs'')))
                        else while_loop_dense_loop cond_fn body_fn carried_inputs
                               additional_inputs ys
                    | _ \<Rightarrow>
                        Some (Inl (AssertionError (MsgType
                          ''body_fn should return a tuple but got '' out))))))))"

definition while_loop_dense :: "pyfn \<Rightarrow> pyfn \<Rightarrow> pyval \<Rightarrow> pyval \<Rightarrow> (error + pyval) option" where
  "while_loop_dense cond_fn body_fn carried_inputs additional_inputs =
     (case carried_inputs of
        PTuple xs \<Rightarrow> while_loop_dense_loop cond_fn body_fn xs additional_inputs xs
      | _ \<Rightarrow> Some (Inl (RuntimeError (MsgType
               ''carried_inputs must be a tuple but got '' carried_inputs))))"

declare while_loop_dense_loop.simps [code]

subsection \<open>The reference semantics\<close>

text \<open>
  The loop the documentation of \<^verbatim>\<open>while_loop\<close> gives as the meaning of the operator,
  with the additional inputs passed along:
  \<^verbatim>\<open>
  val = carried_inputs
  while cond_fn(*val, *additional_inputs):
      val = body_fn(*val, *additional_inputs)
  return val
  \<close>
  It checks nothing: \<^verbatim>\<open>val\<close> is whatever the body returned, and unpacking it may raise.
\<close>

partial_function (option) reference_while_loop ::
  "pyfn \<Rightarrow> pyfn \<Rightarrow> pyval \<Rightarrow> pyval \<Rightarrow> (error + pyval) option"
where
  "reference_while_loop cond_fn body_fn val additional_inputs =
     (case py_iter val of
        Inl e \<Rightarrow> Some (Inl e)
      | Inr vals \<Rightarrow>
        (case star_args vals additional_inputs of
           Inl e \<Rightarrow> Some (Inl e)
         | Inr args \<Rightarrow>
           (case cond_fn args of
              Inl e \<Rightarrow> Some (Inl e)
            | Inr pred \<Rightarrow>
              (case truthy pred of
                 Inl e \<Rightarrow> Some (Inl e)
               | Inr go \<Rightarrow>
                 if \<not> go then Some (Inr val)
                 else
                   (case body_fn args of
                      Inl e \<Rightarrow> Some (Inl e)
                    | Inr out \<Rightarrow>
                        reference_while_loop cond_fn body_fn out additional_inputs)))))"

declare reference_while_loop.simps [code]

text \<open>
  The carried values the reference loop has at its head, starting from \<open>val\<close>:
  \<open>val\<close> itself, and every value a true condition and a returning body lead to.
\<close>

inductive reference_visits :: "pyfn \<Rightarrow> pyfn \<Rightarrow> pyval \<Rightarrow> pyval \<Rightarrow> pyval \<Rightarrow> bool"
  for cond_fn body_fn additional_inputs
where
  visits_here: "reference_visits cond_fn body_fn additional_inputs val val"
| visits_next:
    "py_iter val = Inr vals \<Longrightarrow> star_args vals additional_inputs = Inr args \<Longrightarrow>
     cond_fn args = Inr pred \<Longrightarrow> truthy pred = Inr True \<Longrightarrow> body_fn args = Inr out \<Longrightarrow>
     reference_visits cond_fn body_fn additional_inputs out val' \<Longrightarrow>
     reference_visits cond_fn body_fn additional_inputs val val'"

text \<open>
  The contract of condition and body, along one run: at every loop head the run
  reaches, the condition's result, true or false, is a valid boolean scalar, and where
  it is true the body's result is a tuple of \<open>n\<close> elements.
\<close>

definition contract_kept :: "pyfn \<Rightarrow> pyfn \<Rightarrow> pyval \<Rightarrow> nat \<Rightarrow> pyval \<Rightarrow> bool" where
  "contract_kept cond_fn body_fn additional_inputs n val \<longleftrightarrow>
     (\<forall>val' vals args pred.
        reference_visits cond_fn body_fn additional_inputs val val' \<longrightarrow>
        py_iter val' = Inr vals \<longrightarrow> star_args vals additional_inputs = Inr args \<longrightarrow>
        cond_fn args = Inr pred \<longrightarrow>
          is_valid_cond_fn_output pred \<and>
          (truthy pred = Inr True \<longrightarrow>
             (\<forall>out. body_fn args = Inr out \<longrightarrow> (\<exists>ys. out = PTuple ys \<and> length ys = n))))"

subsection \<open>Example callables\<close>

text \<open>
  \<^verbatim>\<open>cond_fn(i, n) = i.sum() < 3\<close> and \<^verbatim>\<open>body_fn(i, n) = (i + 1, 2 * n)\<close> for a tensor
  \<^verbatim>\<open>i\<close> and an integer \<^verbatim>\<open>n\<close>; called with anything else they raise.
\<close>

definition sum_below_3 :: pyfn where
  "sum_below_3 args =
     (case args of
        [PTensor i, PInt n] \<Rightarrow>
          Inr (PTensor (Tensor [] bool_dtype [if sum_list (tdata i) < 3 then 1 else 0]))
      | _ \<Rightarrow> Inl (TypeError (Msg ''cond_fn: unsupported arguments'')))"

definition incr_and_double :: pyfn where
  "incr_and_double args =
     (case args of
        [PTensor i, PInt n] \<Rightarrow>
          Inr (PTuple [PTensor (Tensor (tsize i) (tdtype i) (map (\<lambda>x. x + 1) (tdata i))),
                       PInt (2 * n)])
      | _ \<Rightarrow> Inl (TypeError (Msg ''body_fn: unsupported arguments'')))"

text \<open>\<^verbatim>\<open>body_fn(i) = (i + 1,)\<close>.\<close>

definition incr :: pyfn where
  "incr args =
     (case args of
        [PInt i] \<Rightarrow> Inr (PTuple [PInt (i + 1)])
      | _ \<Rightarrow> Inl (TypeError (Msg ''body_fn: unsupported arguments'')))"

text \<open>
  \<^verbatim>\<open>cond_fn(i) = i < 3\<close>; \<^verbatim>\<open>cond_fn(*args) = 0\<close>; a \<^verbatim>\<open>cond_fn\<close> with no \<^verbatim>\<open>return\<close>, which
  gives \<^verbatim>\<open>None\<close>; \<^verbatim>\<open>cond_fn(*args) = True\<close>; \<^verbatim>\<open>body_fn(i) = [i + 1]\<close>, a list; and
  \<^verbatim>\<open>body_fn(i) = (i, i)\<close>.
\<close>

definition below_3 :: pyfn where
  "below_3 args =
     (case args of
        [PInt i] \<Rightarrow> Inr (PBool (i < 3))
      | _ \<Rightarrow> Inl (TypeError (Msg ''cond_fn: unsupported arguments'')))"

definition always_none :: pyfn where
  "always_none args = Inr PNone"

definition dup :: pyfn where
  "dup args =
     (case args of
        [PInt i] \<Rightarrow> Inr (PTuple [PInt i, PInt i])
      | _ \<Rightarrow> Inl (TypeError (Msg ''body_fn: unsupported arguments'')))"

definition always_zero :: pyfn where
  "always_zero args = Inr (PInt 0)"

definition always_true :: pyfn where
  "always_true args = Inr (PBool True)"

definition incr_list :: pyfn where
  "incr_list args =
     (case args of
        [PInt i] \<Rightarrow> Inr (PList [PInt (i + 1)])
      | _ \<Rightarrow> Inl (TypeError (Msg ''body_fn: unsupported arguments'')))"

section \<open>The symbolic-integer unspecializer\<close>

text \<open>
  Modelled from the spec: the shape-tracking environment (\<^verbatim>\<open>ShapeEnv\<close>, whose code is
  not part of the sources), "offering symbolic-integer allocation and a scoping
  mechanism to mark freshly created symbols as transient/ignorable by the caller". The
  environment counts the unbacked symbols it has handed out, keeps the list of the
  fresh symbols its caller has still to account for, and the flag of the scope in
  which fresh symbols are ignored.
\<close>

record shape_env =
  unbacked_symint_counter :: nat
  pending_fresh_unbacked_symbols :: "nat list"
  ignore_fresh_unbacked_symbols :: bool

text \<open>
  Modelled from the spec: \<^verbatim>\<open>create_unbacked_symint\<close> allocates the next symbol
  \<^verbatim>\<open>u<counter>\<close>, which has no hint, and notes it as pending unless fresh symbols are
  being ignored.
\<close>

definition create_unbacked_symint :: "shape_env \<Rightarrow> pyval \<times> shape_env" where
  "create_unbacked_symint env =
     (PSymInt (SymInt (unbacked_symint_counter env) None),
      env\<lparr>unbacked_symint_counter := Suc (unbacked_symint_counter env),
          pending_fresh_unbacked_symbols :=
            (if ignore_fresh_unbacked_symbols env then pending_fresh_unbacked_symbols env
             else pending_fresh_unbacked_symbols env @ [unbacked_symint_counter env])\<rparr>)"

text \<open>
  \<^verbatim>\<open>compute_unbacked_bindings\<close> is not part of the sources either; the unspecializer
  calls it for its effect on the environment and drops its result, so it is a
  parameter that may change the environment and may raise.
\<close>

type_synonym bindings_fn = "shape_env \<Rightarrow> pyval \<Rightarrow> error option \<times> shape_env"

text \<open>
  \<^verbatim>\<open>_unspecialize_int(fake_mode, t, compute_binding)\<close>; of \<^verbatim>\<open>fake_mode\<close> only its
  \<^verbatim>\<open>shape_env\<close> is used. The call of \<^verbatim>\<open>breakpoint()\<close> for a symbol whose name contains
  \<^verbatim>\<open>u15\<close> stops for a debugger and has no part in the result.
\<close>

definition unspecialize_int ::
  "bindings_fn \<Rightarrow> shape_env \<Rightarrow> pyval \<Rightarrow> bool \<Rightarrow> (error + pyval) \<times> shape_env"
where
  "unspecialize_int compute_unbacked_bindings env t compute_binding =
     (if \<not> isinstance_int t then (Inl (AssertionError (MsgVal [] t)), env)
      else
        (case create_unbacked_symint env of
           (unbacked_idx, env1) \<Rightarrow>
             if compute_binding then
               (case compute_unbacked_bindings env1 unbacked_idx of
                  (Some e, env2) \<Rightarrow> (Inl e, env2)
                | (None, env2) \<Rightarrow> (Inr unbacked_idx, env2))
             else (Inr unbacked_idx, env1)))"

text \<open>
  The generator of \<^verbatim>\<open>unspecialize_ints_with_unbacked_symints\<close>, element by element,
  from left to right.
\<close>

fun unspecialize_args ::
  "bindings_fn \<Rightarrow> bool \<Rightarrow> pyval list \<Rightarrow> shape_env \<Rightarrow> (error + pyval list) \<times> shape_env"
where
  "unspecialize_args compute_unbacked_bindings bind [] env = (Inr [], env)"
| "unspecialize_args compute_unbacked_bindings bind (arg # rest) env =
     (if isinstance_int arg then
        (case unspecialize_int compute_unbacked_bindings env arg bind of
           (Inl e, env1) \<Rightarrow> (Inl e, env1)
         | (Inr t, env1) \<Rightarrow>
             (case unspecialize_args compute_unbacked_bindings bind rest env1 of
                (Inl e, env2) \<Rightarrow> (Inl e, env2)
              | (Inr ts, env2) \<Rightarrow> (Inr (t # ts), env2)))
      else
        (case unspecialize_args compute_unbacked_bindings bind rest env of
           (Inl e, env2) \<Rightarrow> (Inl e, env2)
         | (Inr ts, env2) \<Rightarrow> (Inr (arg # ts), env2)))"

definition unspecialize_ints_with_unbacked_symints ::
  "bindings_fn \<Rightarrow> shape_env \<Rightarrow> pyval \<Rightarrow> bool \<Rightarrow> (error + pyval) \<times> shape_env"
where
  "unspecialize_ints_with_unbacked_symints compute_unbacked_bindings env carried_inputs bind =
     (case py_iter carried_inputs of
        Inl e \<Rightarrow> (Inl e, env)
      | Inr args \<Rightarrow>
          (case unspecialize_args compute_unbacked_bindings bind args env of
             (Inl e, env') \<Rightarrow> (Inl e, env')
           | (Inr ts, env') \<Rightarrow> (Inr (PTuple ts), env')))"

text \<open>An environment that has handed out no symbol, and a binding function that records nothing.\<close>

definition new_shape_env :: shape_env where
  "new_shape_env =
     \<lparr>unbacked_symint_counter = 0, pending_fresh_unbacked_symbols = [],
      ignore_fresh_unbacked_symbols = False\<rparr>"

definition no_bindings :: bindings_fn where
  "no_bindings env v = (None, env)"

text \<open>
  What the properties below ask of a binding function when it is called: it hands
  no symbol back, that is, it never lowers the counter of the environment.
\<close>

definition keeps_counter :: "bindings_fn \<Rightarrow> bool" where
  "keeps_counter f \<longleftrightarrow>
     (\<forall>env v. unbacked_symint_counter env \<le> unbacked_symint_counter (snd (f env v)))"

section \<open>The fake-tensor-mode adapter\<close>

text \<open>
  Under a fake tensor mode a callable may itself allocate symbols (a nested operator
  call does), so it takes the shape environment and returns it.
\<close>

type_synonym fake_fn = "pyval list \<Rightarrow> shape_env \<Rightarrow> (error + pyval) \<times> shape_env"

text \<open>The positional arguments of \<^verbatim>\<open>f(*carried_inputs, *additional_inputs)\<close>.\<close>

definition star_args2 :: "pyval \<Rightarrow> pyval \<Rightarrow> error + pyval list" where
  "star_args2 carried_inputs additional_inputs =
     (case py_iter carried_inputs of
        Inl e \<Rightarrow> Inl e
      | Inr vals \<Rightarrow> star_args vals additional_inputs)"

text \<open>
  Modelled from the spec: the scope \<^verbatim>\<open>shape_env.ignore_fresh_unbacked_symbols()\<close>, which
  marks "freshly created symbols as transient/ignorable by the caller": it sets the
  flag of the environment, runs its block, and puts the former value of the flag back
  when the block is left, by a return or by an exception.
\<close>

definition with_ignore_fresh_unbacked_symbols ::
  "shape_env \<Rightarrow> (shape_env \<Rightarrow> 'a \<times> shape_env) \<Rightarrow> 'a \<times> shape_env"
where
  "with_ignore_fresh_unbacked_symbols env block =
     (let prev = ignore_fresh_unbacked_symbols env
      in case block (env\<lparr>ignore_fresh_unbacked_symbols := True\<rparr>) of
           (r, env1) \<Rightarrow> (r, env1\<lparr>ignore_fresh_unbacked_symbols := prev\<rparr>))"

text \<open>
  \<^verbatim>\<open>while_loop_fake_tensor_mode\<close>: inside the scope the one call of \<^verbatim>\<open>body_fn\<close>, after it
  the unspecializer on the body's result, without bindings.
\<close>

definition while_loop_fake_tensor_mode ::
  "bindings_fn \<Rightarrow> shape_env \<Rightarrow> fake_fn \<Rightarrow> fake_fn \<Rightarrow> pyval \<Rightarrow> pyval
     \<Rightarrow> (error + pyval) \<times> shape_env"
where
  "while_loop_fake_tensor_mode compute_unbacked_bindings env cond_fn body_fn
       carried_inputs additional_inputs =
     (case with_ignore_fresh_unbacked_symbols env
             (\<lambda>env0.
                case star_args2 carried_inputs additional_inputs of
                  Inl e \<Rightarrow> (Inl e, env0)
                | Inr args \<Rightarrow> body_fn args env0) of
        (Inl e, env2) \<Rightarrow> (Inl e, env2)
      | (Inr body_output, env2) \<Rightarrow>
          unspecialize_ints_with_unbacked_symints compute_unbacked_bindings env2
            body_output False)"

text \<open>
  Example callables under a fake mode: \<^verbatim>\<open>body_fn(t, b) = (t, not b)\<close> for a tensor \<^verbatim>\<open>t\<close>
  and a native boolean \<^verbatim>\<open>b\<close>, which keeps the arity and, element by element, the kind
  and the tensor metadata of its arguments; and a condition that raises whenever it is
  evaluated.
\<close>

definition fake_negate :: fake_fn where
  "fake_negate args env =
     (case args of
        [PTensor t, PBool b] \<Rightarrow> (Inr (PTuple [PTensor t, PBool (\<not> b)]), env)
      | _ \<Rightarrow> (Inl (TypeError (Msg ''body_fn: unsupported arguments'')), env))"

definition fake_raise :: fake_fn where
  "fake_raise args env = (Inl (UserException ''cond_fn was evaluated''), env)"

section \<open>The subgraph names of the tracing adapter\<close>

text \<open>\<^verbatim>\<open>str(i)\<close> for a natural number: its decimal digits.\<close>

definition digit_char :: "nat \<Rightarrow> char" where
  "digit_char d = ''0123456789'' ! d"

fun decimal :: "nat \<Rightarrow> string" where
  "decimal n =
     (if n < 10 then [digit_char n] else decimal (n div 10) @ [digit_char (n mod 10)])"

declare decimal.simps [simp del]

definition cond_graph_name :: "nat \<Rightarrow> string" where
  "cond_graph_name i = ''while_loop_cond_graph_'' @ decimal i"

definition body_graph_name :: "nat \<Rightarrow> string" where
  "body_graph_name i = ''while_loop_body_graph_'' @ decimal i"

text \<open>
  Modelled from the spec: the namespace of the enclosing graph's root module
  (\<^verbatim>\<open>proxy_mode.tracer.root\<close>, an \<^verbatim>\<open>nn.Module\<close> whose code is not part of the sources):
  the finite list of its attribute names, each a registered child or some other
  attribute. \<^verbatim>\<open>hasattr\<close> asks for a name, and \<^verbatim>\<open>register_module\<close> makes a subgraph a
  "named child of the enclosing graph".
\<close>

datatype 'g attribute = Submodule 'g | Other_attribute

type_synonym 'g root_module = "(string \<times> 'g attribute) list"

text \<open>Modelled from the spec: \<^verbatim>\<open>hasattr(root, name)\<close>, whether the name is taken.\<close>

definition hasattr :: "'g root_module \<Rightarrow> string \<Rightarrow> bool" where
  "hasattr tracer_root name \<longleftrightarrow> name \<in> set (map fst tracer_root)"

text \<open>
  Modelled from the spec: \<^verbatim>\<open>root.register_module(name, graph)\<close> adds the subgraph to the
  root as a child of that name.
\<close>

definition register_module :: "'g root_module \<Rightarrow> string \<Rightarrow> 'g \<Rightarrow> 'g root_module" where
  "register_module tracer_root name g = tracer_root @ [(name, Submodule g)]"

text \<open>
  The probing loop of \<^verbatim>\<open>_trace_while_loop\<close>, started with \<^verbatim>\<open>i = 0\<close>: it leaves with
  the first \<^verbatim>\<open>i\<close> from there on for which \<^verbatim>\<open>while_loop_cond_graph_{i}\<close> is no attribute
  of the root.
\<close>

partial_function (option) probe_cond_graph_name :: "'g root_module \<Rightarrow> nat \<Rightarrow> nat option" where
  "probe_cond_graph_name tracer_root i =
     (if hasattr tracer_root (cond_graph_name i)
      then probe_cond_graph_name tracer_root (i + 1)
      else Some i)"

declare probe_cond_graph_name.simps [code]

text \<open>
  The naming step of \<^verbatim>\<open>_trace_while_loop\<close>: the probing loop, the assertion on the body
  name, and the two registrations. It returns the root with its new children and the
  two names.
\<close>

definition while_loop_tracing_names ::
  "'g root_module \<Rightarrow> 'g \<Rightarrow> 'g \<Rightarrow> (error + 'g root_module \<times> string \<times> string) option"
where
  "while_loop_tracing_names tracer_root cond_graph body_graph =
     (case probe_cond_graph_name tracer_root 0 of
        None \<Rightarrow> None
      | Some i \<Rightarrow>
          if hasattr tracer_root (body_graph_name i) then Some (Inl (AssertionError (Msg [])))
          else
            Some (Inr (register_module
                         (register_module tracer_root (cond_graph_name i) cond_graph)
                         (body_graph_name i) body_graph,
                       cond_graph_name i, body_graph_name i)))"

text \<open>
  A namespace in which the names of this adapter come in pairs: wherever a body name
  is taken, so is the condition name of the same suffix.
\<close>

definition names_paired :: "'g root_module \<Rightarrow> bool" where
  "names_paired tracer_root \<longleftrightarrow>
     (\<forall>k. hasattr tracer_root (body_graph_name k) \<longrightarrow>
          hasattr tracer_root (cond_graph_name k))"

section \<open>The functionalization adapter\<close>

text \<open>
  The adapter works through the functionalization context \<^verbatim>\<open>ctx\<close> and through helpers
  of \<^verbatim>\<open>torch._higher_order_ops.utils\<close>, none of which is part of the sources: they are
  parameters. Of \<^verbatim>\<open>ctx\<close> the adapter uses \<^verbatim>\<open>unwrap_tensors\<close> and \<^verbatim>\<open>wrap_tensors\<close>,
  \<^verbatim>\<open>functionalize\<close>, and the flag \<^verbatim>\<open>ctx.mode.pre_dispatch\<close> when \<^verbatim>\<open>ctx\<close> has an attribute
  \<^verbatim>\<open>mode\<close> (\<open>None\<close> when it has none). \<^verbatim>\<open>unwrap_tensors\<close> maps a tuple to a tuple, element
  by element, so it is taken on the elements.
\<close>

record functional_ctx =
  unwrap_tensors :: "pyval list \<Rightarrow> pyval list"
  wrap_tensors :: "pyval \<Rightarrow> pyval"
  functionalize :: "pyfn \<Rightarrow> pyfn"
  mode_pre_dispatch :: "bool option"

text \<open>
  The helpers: the interpreter wrapper, the two static checks, which may raise, and
  the operator \<^verbatim>\<open>while_loop_op\<close> as the next dispatch key implements it.
\<close>

record functional_utils =
  maybe_run_with_interpreter :: "pyfn \<Rightarrow> pyfn"
  has_potential_branch_input_mutation :: "pyfn \<Rightarrow> pyval list \<Rightarrow> bool \<Rightarrow> error + bool"
  has_potential_branch_input_alias :: "pyfn \<Rightarrow> pyval list \<Rightarrow> bool \<Rightarrow> error + bool"
  while_loop_op :: "pyfn \<Rightarrow> pyfn \<Rightarrow> pyval \<Rightarrow> pyval \<Rightarrow> (error + pyval) option"

text \<open>
  The \<^verbatim>\<open>for fn, fn_name in [...]\<close> loop of \<^verbatim>\<open>while_loop_func\<close>: the mutation check, then
  the aliasing check, for each function in turn; the first check that detects something
  raises. \<open>None\<close> means that the loop ran through.
\<close>

fun check_fns ::
  "functional_utils \<Rightarrow> (pyfn \<times> string) list \<Rightarrow> pyval list \<Rightarrow> bool \<Rightarrow> error option"
where
  "check_fns utils [] unwrapped_inputs pre_dispatch = None"
| "check_fns utils ((fn, fn_name) # rest) unwrapped_inputs pre_dispatch =
     (case has_potential_branch_input_mutation utils fn unwrapped_inputs pre_dispatch of
        Inl e \<Rightarrow> Some e
      | Inr mutation \<Rightarrow>
          if mutation then
            Some (UnsupportedAliasMutationException
                    (Msg (''torch.while_loop's '' @ fn_name @ '' might be modifying the input!'')))
          else
            (case has_potential_branch_input_alias utils fn unwrapped_inputs pre_dispatch of
               Inl e \<Rightarrow> Some e
             | Inr alias \<Rightarrow>
                 if alias then
                   Some (UnsupportedAliasMutationException
                           (Msg (''torch.while_loop's '' @ fn_name @
                                 '' might be aliasing the input!'')))
                 else check_fns utils rest unwrapped_inputs pre_dispatch))"

text \<open>
  \<^verbatim>\<open>while_loop_func\<close>. It is reached through \<^verbatim>\<open>WhileLoopOp.__call__\<close>, which has checked
  that both inputs are tuples: they are given by their elements.
\<close>

definition while_loop_func ::
  "functional_ctx \<Rightarrow> functional_utils \<Rightarrow> pyfn \<Rightarrow> pyfn \<Rightarrow> pyval list \<Rightarrow> pyval list
     \<Rightarrow> (error + pyval) option"
where
  "while_loop_func ctx utils cond_fn body_fn carried_inputs additional_inputs =
     (let unwrapped_carried_inputs = unwrap_tensors ctx carried_inputs;
          unwrapped_additional_inputs = unwrap_tensors ctx additional_inputs;
          unwrapped_inputs = unwrapped_carried_inputs @ unwrapped_additional_inputs;
          functional_cond_fn = functionalize ctx (maybe_run_with_interpreter utils cond_fn);
          functional_body_fn = functionalize ctx (maybe_run_with_interpreter utils body_fn);
          pre_dispatch = (case mode_pre_dispatch ctx of None \<Rightarrow> False | Some p \<Rightarrow> p)
      in case check_fns utils
                [(functional_cond_fn, ''cond_fn''), (functional_body_fn, ''body_fn'')]
                unwrapped_inputs pre_dispatch of
           Some e \<Rightarrow> Some (Inl e)
         | None \<Rightarrow>
             (case while_loop_op utils functional_cond_fn functional_body_fn
                     (PTuple unwrapped_carried_inputs) (PTuple unwrapped_additional_inputs) of
                None \<Rightarrow> None
              | Some (Inl e) \<Rightarrow> Some (Inl e)
              | Some (Inr ret) \<Rightarrow> Some (Inr (wrap_tensors ctx ret))))"

text \<open>
  Stand-ins for the parameters: a context that wraps nothing, helpers whose checks
  detect nothing and whose operator is the dense executor, and helpers whose mutation
  check flags every function that returns a tuple on the inputs.
\<close>

definition plain_ctx :: functional_ctx where
  "plain_ctx =
     \<lparr>unwrap_tensors = (\<lambda>xs. xs), wrap_tensors = (\<lambda>v. v), functionalize = (\<lambda>f. f),
      mode_pre_dispatch = None\<rparr>"

definition lenient_utils :: functional_utils where
  "lenient_utils =
     \<lparr>maybe_run_with_interpreter = (\<lambda>f. f),
      has_potential_branch_input_mutation = (\<lambda>f inputs pre. Inr False),
      has_potential_branch_input_alias = (\<lambda>f inputs pre. Inr False),
      while_loop_op = while_loop_dense\<rparr>"

definition tuple_flagging_utils :: functional_utils where
  "tuple_flagging_utils =
     \<lparr>maybe_run_with_interpreter = (\<lambda>f. f),
      has_potential_branch_input_mutation =
        (\<lambda>f inputs pre. Inr (case f inputs of Inr (PTuple ys) \<Rightarrow> True | _ \<Rightarrow> False)),
      has_potential_branch_input_alias = (\<lambda>f inputs pre. Inr False),
      while_loop_op = while_loop_dense\<rparr>"

section \<open>The validation layer\<close>

text \<open>\<^verbatim>\<open>isinstance(t, (torch.Tensor, int, float, bool, torch.SymInt))\<close>.\<close>

fun isinstance_carried_type :: "pyval \<Rightarrow> bool" where
  "isinstance_carried_type (PTensor t) = True"
| "isinstance_carried_type (PInt i) = True"
| "isinstance_carried_type (PFloat f) = True"
| "isinstance_carried_type (PBool b) = True"
| "isinstance_carried_type (PSymInt s) = True"
| "isinstance_carried_type v = False"

text \<open>
  \<^verbatim>\<open>WhileLoopOp.__call__\<close>. \<^verbatim>\<open>validate_subgraph_args_types\<close> and the dispatch of
  \<^verbatim>\<open>HigherOrderOperator.__call__\<close> are not part of the sources and are parameters; the
  callables are handed to the dispatch and used nowhere else.
\<close>

definition WhileLoopOp_call ::
  "(pyval \<Rightarrow> error option) \<Rightarrow> (pyfn \<Rightarrow> pyfn \<Rightarrow> pyval \<Rightarrow> pyval \<Rightarrow> (error + pyval) option)
     \<Rightarrow> pyfn \<Rightarrow> pyfn \<Rightarrow> pyval \<Rightarrow> pyval \<Rightarrow> (error + pyval) option"
where
  "WhileLoopOp_call validate_subgraph_args_types dispatch cond_fn body_fn
       carried_inputs additional_inputs =
     (case carried_inputs of
        PTuple ts \<Rightarrow>
          if \<not> isinstance_tuple additional_inputs then
            Some (Inl (RuntimeError
                   (MsgType ''additional_inputs must be a tuple, got '' additional_inputs)))
          else if \<not> list_all isinstance_carried_type ts then
            Some (Inl (RuntimeError
                   (MsgVal ''carried_inputs must be a tuple of tensors, ints, floats, or bools, got ''
                      carried_inputs)))
          else
            (case validate_subgraph_args_types additional_inputs of
               Some e \<Rightarrow> Some (Inl e)
             | None \<Rightarrow> dispatch cond_fn body_fn carried_inputs additional_inputs)
      | _ \<Rightarrow>
          Some (Inl (RuntimeError
                 (MsgType ''carried_inputs must be a tuple, got '' carried_inputs))))"

text \<open>
  A validator that accepts everything, and a callable that raises whenever it is
  evaluated.
\<close>

definition accept_all :: "pyval \<Rightarrow> error option" where
  "accept_all v = None"

definition always_raise :: pyfn where
  "always_raise args = Inl (UserException ''the callable was evaluated'')"

section \<open>Properties of the dense executor\<close>

subsection \<open>A false condition ends the loop before its result is checked\<close>

text \<open>
  C9. Whenever \<^verbatim>\<open>cond_fn\<close> returns a value that is false in Python's sense, the loop
  of the dense executor ends there and returns the current carried tuple, whether or
  not the value is a valid boolean scalar: the check of \<^verbatim>\<open>_is_valid_cond_fn_output\<close>
  stands inside the loop body, which only a true value enters. The integer 0, the
  float 0.0 and \<^verbatim>\<open>None\<close> are such values.
\<close>

theorem dense_false_condition_returns:
  assumes "star_args carried_vals additional_inputs = Inr args"
    and "cond_fn args = Inr pred"
    and "truthy pred = Inr False"
  shows "while_loop_dense_loop cond_fn body_fn carried_inputs additional_inputs carried_vals
           = Some (Inr (PTuple carried_vals))"
  by (subst while_loop_dense_loop.simps) (simp add: assms)

theorem dense_false_condition_returns_witness:
  "truthy (PInt 0) = Inr False \<and> truthy (PFloat (FloatVal 0)) = Inr False \<and>
   truthy PNone = Inr False \<and>
   \<not> is_valid_cond_fn_output (PInt 0) \<and> \<not> is_valid_cond_fn_output (PFloat (FloatVal 0)) \<and>
   \<not> is_valid_cond_fn_output PNone \<and>
   while_loop_dense_loop always_zero incr [PInt 4] (PTuple []) [PInt 5]
     = Some (Inr (PTuple [PInt 5]))"
proof -
  have a: "star_args [PInt 5] (PTuple []) = Inr [PInt 5]"
    by (simp add: star_args_def)
  have c: "always_zero [PInt 5] = Inr (PInt 0)"
    by (simp add: always_zero_def)
  have t: "truthy (PInt 0) = Inr False"
    by simp
  show ?thesis
    using dense_false_condition_returns
      [where cond_fn = always_zero and body_fn = incr and carried_inputs = "[PInt 4]", OF a c t]
    by simp
qed

subsection \<open>The condition check misses false values\<close>

text \<open>
  C2. The claim asks for a type contract error at every evaluation of \<^verbatim>\<open>cond_fn\<close> whose
  result is no valid boolean scalar, false values included. The code does not do that:
  a \<^verbatim>\<open>cond_fn\<close> that returns \<^verbatim>\<open>None\<close> is called once on the carried tuple \<^verbatim>\<open>(5,)\<close>, its
  result is no valid boolean scalar, and the executor returns \<^verbatim>\<open>(5,)\<close> normally.
\<close>

theorem dense_none_condition_not_rejected:
  "always_none [PInt 5] = Inr PNone \<and> \<not> is_valid_cond_fn_output PNone \<and>
   while_loop_dense always_none incr (PTuple [PInt 5]) (PTuple []) = Some (Inr (PTuple [PInt 5]))"
  by (simp add: while_loop_dense_def while_loop_dense_loop.simps star_args_def always_none_def)

text \<open>A true value that is no valid boolean scalar is rejected where it is evaluated.\<close>

lemma dense_true_invalid_condition_raises:
  assumes "star_args carried_vals additional_inputs = Inr args"
    and "cond_fn args = Inr pred"
    and "truthy pred = Inr True"
    and "\<not> is_valid_cond_fn_output pred"
  shows "while_loop_dense_loop cond_fn body_fn carried_inputs additional_inputs carried_vals
           = Some (Inl (RuntimeError (MsgVal
               ''cond_fn must return a boolean scalar tensor or a bool but got '' pred)))"
  by (subst while_loop_dense_loop.simps) (simp add: assms)

subsection \<open>The body's result\<close>

text \<open>
  C7. At a loop head where the condition is true (and a valid boolean scalar) and
  \<^verbatim>\<open>body_fn\<close> returns \<open>out\<close>: if \<open>out\<close> is no tuple the executor fails with the first
  assertion's error; if it is a tuple whose length differs from that of
  \<^verbatim>\<open>carried_inputs\<close> it fails with the second assertion's error; otherwise the loop goes
  on with the elements of \<open>out\<close> as the carried values.
\<close>

theorem dense_body_result_contract:
  assumes "star_args carried_vals additional_inputs = Inr args"
    and "cond_fn args = Inr pred"
    and "truthy pred = Inr True"
    and "is_valid_cond_fn_output pred"
    and "body_fn args = Inr out"
  shows "(\<not> isinstance_tuple out \<longrightarrow>
            while_loop_dense_loop cond_fn body_fn carried_inputs additional_inputs carried_vals
              = Some (Inl (AssertionError (MsgType ''body_fn should return a tuple but got '' out))))
       \<and> (\<forall>ys. out = PTuple ys \<longrightarrow> length ys \<noteq> length carried_inputs \<longrightarrow>
            while_loop_dense_loop cond_fn body_fn carried_inputs additional_inputs carried_vals
              = Some (Inl (AssertionError (Msg
                  ''body_fn should return the same number of elements as carried_inputs''))))
       \<and> (\<forall>ys. out = PTuple ys \<longrightarrow> length ys = length carried_inputs \<longrightarrow>
            while_loop_dense_loop cond_fn body_fn carried_inputs additional_inputs carried_vals
              = while_loop_dense_loop cond_fn body_fn carried_inputs additional_inputs ys)"
proof (intro conjI allI impI)
  assume "\<not> isinstance_tuple out"
  then have nt: "\<forall>ys. out \<noteq> PTuple ys"
    by (cases out) simp_all
  show "while_loop_dense_loop cond_fn body_fn carried_inputs additional_inputs carried_vals
          = Some (Inl (AssertionError (MsgType ''body_fn should return a tuple but got '' out)))"
    using nt by (subst while_loop_dense_loop.simps) (simp add: assms split: pyval.splits)
next
  fix ys
  assume "out = PTuple ys" and "length ys \<noteq> length carried_inputs"
  then show "while_loop_dense_loop cond_fn body_fn carried_inputs additional_inputs carried_vals
          = Some (Inl (AssertionError (Msg
              ''body_fn should return the same number of elements as carried_inputs'')))"
    using assms by (subst while_loop_dense_loop.simps) simp
next
  fix ys
  assume "out = PTuple ys" and "length ys = length carried_inputs"
  then show "while_loop_dense_loop cond_fn body_fn carried_inputs additional_inputs carried_vals
          = while_loop_dense_loop cond_fn body_fn carried_inputs additional_inputs ys"
    using assms by (subst while_loop_dense_loop.simps) simp
qed

theorem dense_body_result_contract_witness:
  "while_loop_dense_loop always_true incr_list [PInt 0] (PTuple []) [PInt 0]
     = Some (Inl (AssertionError
         (MsgType ''body_fn should return a tuple but got '' (PList [PInt 1]))))
   \<and> while_loop_dense_loop always_true dup [PInt 0] (PTuple []) [PInt 0]
     = Some (Inl (AssertionError
         (Msg ''body_fn should return the same number of elements as carried_inputs'')))
   \<and> while_loop_dense_loop below_3 incr [PInt 0] (PTuple []) [PInt 0]
     = while_loop_dense_loop below_3 incr [PInt 0] (PTuple []) [PInt 1]"
proof -
  have a: "star_args [PInt 0] (PTuple []) = Inr [PInt 0]"
    by (simp add: star_args_def)
  have c: "always_true [PInt 0] = Inr (PBool True)"
    by (simp add: always_true_def)
  have c': "below_3 [PInt 0] = Inr (PBool True)"
    by (simp add: below_3_def)
  have t: "truthy (PBool True) = Inr True" and v: "is_valid_cond_fn_output (PBool True)"
    by simp_all
  have b1: "incr_list [PInt 0] = Inr (PList [PInt 1])"
    by (simp add: incr_list_def)
  have b2: "dup [PInt 0] = Inr (PTuple [PInt 0, PInt 0])"
    by (simp add: dup_def)
  have b3: "incr [PInt 0] = Inr (PTuple [PInt 1])"
    by (simp add: incr_def)
  show ?thesis
    using dense_body_result_contract
            [where cond_fn = always_true and body_fn = incr_list and carried_inputs = "[PInt 0]",
             OF a c t v b1]
          dense_body_result_contract
            [where cond_fn = always_true and body_fn = dup and carried_inputs = "[PInt 0]",
             OF a c t v b2]
          dense_body_result_contract
            [where cond_fn = below_3 and body_fn = incr and carried_inputs = "[PInt 0]",
             OF a c' t v b3]
    by simp
qed

subsection \<open>The dense executor and the reference loop\<close>

lemma contract_kept_here:
  assumes "contract_kept c b addl n val"
    and "py_iter val = Inr vals" and "star_args vals addl = Inr args"
    and "c args = Inr pred"
  shows "is_valid_cond_fn_output pred"
    and "truthy pred = Inr True \<Longrightarrow> b args = Inr out \<Longrightarrow> \<exists>ys. out = PTuple ys \<and> length ys = n"
  using assms visits_here [of c b addl val] unfolding contract_kept_def by blast+

lemma contract_kept_next:
  assumes "contract_kept c b addl n val"
    and "py_iter val = Inr vals" and "star_args vals addl = Inr args"
    and "c args = Inr pred" and "truthy pred = Inr True" and "b args = Inr out"
  shows "contract_kept c b addl n out"
  unfolding contract_kept_def
proof (intro allI impI)
  fix val' vals' args' pred'
  assume v: "reference_visits c b addl out val'"
    and h: "py_iter val' = Inr vals'" "star_args vals' addl = Inr args'"
      "c args' = Inr pred'"
  have "reference_visits c b addl val val'"
    using visits_next [OF assms(2-6) v] .
  with assms(1) h
  show "is_valid_cond_fn_output pred' \<and>
        (truthy pred' = Inr True \<longrightarrow>
           (\<forall>out. b args' = Inr out \<longrightarrow> (\<exists>ys. out = PTuple ys \<and> length ys = n)))"
    unfolding contract_kept_def by blast
qed

text \<open>
  From the reference loop to the executor, by fixpoint induction on the reference
  loop: each of its iterations is one of the executor's as long as the contract is kept.
\<close>

lemma reference_to_dense_loop:
  assumes "reference_while_loop c b val addl = Some r"
  shows "\<forall>vals v. val = PTuple vals \<longrightarrow> r = Inr v \<longrightarrow> length vals = length ci \<longrightarrow>
           contract_kept c b addl (length ci) val \<longrightarrow>
           while_loop_dense_loop c b ci addl vals = Some (Inr v)"
  using assms
proof (induction c b val addl r rule: reference_while_loop.raw_induct [rotated 1, consumes 1])
  case (1 f c b val addl r)
  show ?case
  proof (intro allI impI)
    fix vals v
    assume val: "val = PTuple vals" and r: "r = Inr v" and len: "length vals = length ci"
      and ck: "contract_kept c b addl (length ci) val"
    have it: "py_iter val = Inr vals"
      using val by simp
    from "1.hyps" it r obtain args where args: "star_args vals addl = Inr args"
      by (auto split: sum.splits)
    from "1.hyps" it r args obtain pred where pred: "c args = Inr pred"
      by (auto split: sum.splits)
    from "1.hyps" it r args pred obtain go where go: "truthy pred = Inr go"
      by (auto split: sum.splits)
    show "while_loop_dense_loop c b ci addl vals = Some (Inr v)"
    proof (cases go)
      case False
      with "1.hyps" it r args pred go have "v = PTuple vals"
        using val by simp
      with False args pred go show ?thesis
        by (subst while_loop_dense_loop.simps) simp
    next
      case True
      with "1.hyps" it r args pred go obtain out where out: "b args = Inr out"
        and rec: "f c b out addl = Some r"
        by (auto split: sum.splits)
      from True go have t: "truthy pred = Inr True"
        by simp
      have valid: "is_valid_cond_fn_output pred"
        using contract_kept_here(1) [OF ck it args pred] .
      obtain ys where ys: "out = PTuple ys" "length ys = length ci"
        using contract_kept_here(2) [OF ck it args pred t out] by blast
      have ck': "contract_kept c b addl (length ci) out"
        using contract_kept_next [OF ck it args pred t out] .
      from "1.IH" [OF rec] ys r ck'
      have "while_loop_dense_loop c b ci addl ys = Some (Inr v)"
        by blast
      with args pred t valid out ys show ?thesis
        by (subst while_loop_dense_loop.simps) simp
    qed
  qed
qed

text \<open>
  From the executor to the reference loop, by fixpoint induction on the executor's
  loop: a run of the executor that returns has passed every check, and the reference
  loop takes the same steps.
\<close>

lemma dense_loop_to_reference:
  assumes "while_loop_dense_loop c b ci addl vals = Some r"
  shows "r = Inr v \<longrightarrow> reference_while_loop c b (PTuple vals) addl = Some (Inr v)"
  using assms
proof (induction c b ci addl vals r rule: while_loop_dense_loop.raw_induct [rotated 1, consumes 1])
  case (1 f c b ci addl vals r)
  show ?case
  proof
    assume r: "r = Inr v"
    from "1.hyps" r obtain args where args: "star_args vals addl = Inr args"
      by (auto split: sum.splits)
    from "1.hyps" r args obtain pred where pred: "c args = Inr pred"
      by (auto split: sum.splits)
    from "1.hyps" r args pred obtain go where go: "truthy pred = Inr go"
      by (auto split: sum.splits)
    show "reference_while_loop c b (PTuple vals) addl = Some (Inr v)"
    proof (cases go)
      case False
      with "1.hyps" r args pred go have "v = PTuple vals"
        by simp
      with False args pred go show ?thesis
        by (subst reference_while_loop.simps) simp
    next
      case True
      with "1.hyps" r args pred go obtain ys where out: "b args = Inr (PTuple ys)"
        and rec: "f c b ci addl ys = Some r"
        by (auto split: sum.splits if_splits pyval.splits)
      from "1.IH" [OF rec] r
      have "reference_while_loop c b (PTuple ys) addl = Some (Inr v)"
        by blast
      with args pred True go out show ?thesis
        by (subst reference_while_loop.simps) simp
    qed
  qed
qed

lemma dense_returns_only_reference_result:
  assumes "while_loop_dense cond_fn body_fn carried_inputs additional_inputs = Some (Inr v)"
  shows "reference_while_loop cond_fn body_fn carried_inputs additional_inputs = Some (Inr v)"
proof (cases carried_inputs)
  case (PTuple xs)
  with assms have "while_loop_dense_loop cond_fn body_fn xs additional_inputs xs = Some (Inr v)"
    by (simp add: while_loop_dense_def)
  from dense_loop_to_reference [OF this, of v] PTuple show ?thesis
    by simp
qed (use assms in \<open>simp_all add: while_loop_dense_def\<close>)

text \<open>
  C1. For every carried tuple, additional inputs and pair of callables for which the
  reference loop terminates with a value, the pair keeping its contract along the run
  (every condition result a valid boolean scalar, every body result a tuple of the
  arity of \<^verbatim>\<open>carried_inputs\<close>), the dense executor returns exactly that value.
\<close>

theorem while_loop_dense_returns_reference_result:
  assumes "reference_while_loop cond_fn body_fn (PTuple xs) additional_inputs = Some (Inr v)"
    and "contract_kept cond_fn body_fn additional_inputs (length xs) (PTuple xs)"
  shows "while_loop_dense cond_fn body_fn (PTuple xs) additional_inputs = Some (Inr v)"
  using reference_to_dense_loop [OF assms(1), of xs] assms(2)
  by (simp add: while_loop_dense_def)

theorem while_loop_dense_returns_reference_result_witness:
  "reference_while_loop sum_below_3 incr_and_double
     (PTuple [PTensor (Tensor [1] int64 [0]), PInt 1]) (PTuple [])
     = Some (Inr (PTuple [PTensor (Tensor [1] int64 [3]), PInt 8]))
   \<and> contract_kept sum_below_3 incr_and_double (PTuple []) 2
       (PTuple [PTensor (Tensor [1] int64 [0]), PInt 1])
   \<and> while_loop_dense sum_below_3 incr_and_double
       (PTuple [PTensor (Tensor [1] int64 [0]), PInt 1]) (PTuple [])
     = Some (Inr (PTuple [PTensor (Tensor [1] int64 [3]), PInt 8]))"
proof -
  have r: "reference_while_loop sum_below_3 incr_and_double
             (PTuple [PTensor (Tensor [1] int64 [0]), PInt 1]) (PTuple [])
           = Some (Inr (PTuple [PTensor (Tensor [1] int64 [3]), PInt 8]))"
    by (simp add: reference_while_loop.simps star_args_def sum_below_3_def incr_and_double_def)
  have k: "contract_kept sum_below_3 incr_and_double (PTuple []) 2
             (PTuple [PTensor (Tensor [1] int64 [0]), PInt 1])"
    unfolding contract_kept_def sum_below_3_def incr_and_double_def
    by (auto split: list.splits pyval.splits)
  have k': "contract_kept sum_below_3 incr_and_double (PTuple [])
              (length [PTensor (Tensor [1] int64 [0]), PInt 1])
              (PTuple [PTensor (Tensor [1] int64 [0]), PInt 1])"
    using k by (simp add: numeral_2_eq_2)
  have d: "while_loop_dense sum_below_3 incr_and_double
             (PTuple [PTensor (Tensor [1] int64 [0]), PInt 1]) (PTuple [])
           = Some (Inr (PTuple [PTensor (Tensor [1] int64 [3]), PInt 8]))"
    using while_loop_dense_returns_reference_result [OF r k'] .
  show ?thesis
    using r k d by blast
qed

section \<open>Properties of the symbolic-integer unspecializer\<close>

lemma unspecialize_int_result:
  assumes "bind \<Longrightarrow> keeps_counter cub"
    and "unspecialize_int cub env t bind = (Inr u, env1)"
  shows "u = PSymInt (SymInt (unbacked_symint_counter env) None) \<and>
         unbacked_symint_counter env < unbacked_symint_counter env1"
proof (cases bind)
  case True
  then have "unbacked_symint_counter (snd (create_unbacked_symint env))
          \<le> unbacked_symint_counter
               (snd (cub (snd (create_unbacked_symint env)) (fst (create_unbacked_symint env))))"
    using assms(1) unfolding keeps_counter_def by blast
  with assms(2) show ?thesis
    by (auto simp: unspecialize_int_def create_unbacked_symint_def
        split: if_splits prod.splits option.splits)
next
  case False
  with assms(2) show ?thesis
    by (auto simp: unspecialize_int_def create_unbacked_symint_def split: if_splits)
qed

lemma unspecialize_int_no_binding:
  "isinstance_int t \<Longrightarrow> unspecialize_int cub env t False =
     (Inr (PSymInt (SymInt (unbacked_symint_counter env) None)), snd (create_unbacked_symint env))"
  by (simp add: unspecialize_int_def create_unbacked_symint_def)

text \<open>Without bindings the generator never raises.\<close>

lemma unspecialize_args_total:
  "\<exists>ys env'. unspecialize_args cub False xs env = (Inr ys, env')"
proof (induction xs arbitrary: env)
  case Nil
  show ?case by simp
next
  case (Cons x xs)
  show ?case
  proof (cases "isinstance_int x")
    case True
    obtain ys env' where
      "unspecialize_args cub False xs (snd (create_unbacked_symint env)) = (Inr ys, env')"
      using Cons.IH by blast
    with True show ?thesis
      by (simp add: unspecialize_int_no_binding)
  next
    case False
    obtain ys env' where "unspecialize_args cub False xs env = (Inr ys, env')"
      using Cons.IH by blast
    with False show ?thesis by simp
  qed
qed

text \<open>
  What the generator returns: as many elements as it was given; in the place of
  every instance of \<^verbatim>\<open>int\<close> a symbol whose index the environment had not handed out
  before and has handed out now; every other element as it was.
\<close>

lemma unspecialize_args_result:
  assumes "bind \<Longrightarrow> keeps_counter cub"
    and "unspecialize_args cub bind xs env = (Inr ys, env')"
  shows "length ys = length xs \<and> unbacked_symint_counter env \<le> unbacked_symint_counter env' \<and>
         (\<forall>i<length xs.
            (isinstance_int (xs ! i) \<longrightarrow>
               (\<exists>k. ys ! i = PSymInt (SymInt k None) \<and> unbacked_symint_counter env \<le> k \<and>
                    k < unbacked_symint_counter env')) \<and>
            (\<not> isinstance_int (xs ! i) \<longrightarrow> ys ! i = xs ! i))"
  using assms(2)
proof (induction xs arbitrary: env ys)
  case Nil
  then show ?case by simp
next
  case (Cons x xs)
  show ?case
  proof (cases "isinstance_int x")
    case True
    from Cons.prems True obtain u env1 ts where
      u: "unspecialize_int cub env x bind = (Inr u, env1)"
      and ts: "unspecialize_args cub bind xs env1 = (Inr ts, env')"
      and ys: "ys = u # ts"
      by (auto split: prod.splits sum.splits)
    note a = unspecialize_int_result [OF assms(1) u]
    note b = Cons.IH [OF ts]
    show ?thesis
    proof (intro conjI allI impI)
      show "length ys = length (x # xs)"
        using b ys by simp
      show "unbacked_symint_counter env \<le> unbacked_symint_counter env'"
        using a b by simp
    next
      fix i
      assume i: "i < length (x # xs)" and int: "isinstance_int ((x # xs) ! i)"
      show "\<exists>k. ys ! i = PSymInt (SymInt k None) \<and> unbacked_symint_counter env \<le> k \<and>
                 k < unbacked_symint_counter env'"
      proof (cases i)
        case 0
        with a b ys show ?thesis by auto
      next
        case (Suc j)
        with i int b obtain k where "ts ! j = PSymInt (SymInt k None)"
          "unbacked_symint_counter env1 \<le> k" "k < unbacked_symint_counter env'"
          by auto
        with a ys Suc show ?thesis by auto
      qed
    next
      fix i
      assume i: "i < length (x # xs)" and nint: "\<not> isinstance_int ((x # xs) ! i)"
      show "ys ! i = (x # xs) ! i"
      proof (cases i)
        case 0
        with nint True show ?thesis by simp
      next
        case (Suc j)
        with i nint b ys show ?thesis by auto
      qed
    qed
  next
    case False
    from Cons.prems False obtain ts where
      ts: "unspecialize_args cub bind xs env = (Inr ts, env')"
      and ys: "ys = x # ts"
      by (auto split: prod.splits sum.splits)
    note b = Cons.IH [OF ts]
    show ?thesis
    proof (intro conjI allI impI)
      show "length ys = length (x # xs)"
        using b ys by simp
      show "unbacked_symint_counter env \<le> unbacked_symint_counter env'"
        using b by simp
    next
      fix i
      assume i: "i < length (x # xs)" and int: "isinstance_int ((x # xs) ! i)"
      show "\<exists>k. ys ! i = PSymInt (SymInt k None) \<and> unbacked_symint_counter env \<le> k \<and>
                 k < unbacked_symint_counter env'"
      proof (cases i)
        case 0
        with int False show ?thesis by simp
      next
        case (Suc j)
        with i int b ys show ?thesis by auto
      qed
    next
      fix i
      assume i: "i < length (x # xs)" and nint: "\<not> isinstance_int ((x # xs) ! i)"
      show "ys ! i = (x # xs) ! i"
      proof (cases i)
        case 0
        with ys show ?thesis by simp
      next
        case (Suc j)
        with i nint b ys show ?thesis by auto
      qed
    qed
  qed
qed

lemma unspecialize_tuple_unfold:
  "unspecialize_ints_with_unbacked_symints cub env (PTuple xs) bind = (Inr (PTuple ys), env')
     \<longleftrightarrow> unspecialize_args cub bind xs env = (Inr ys, env')"
  by (auto simp: unspecialize_ints_with_unbacked_symints_def split: prod.splits sum.splits)

text \<open>
  C6. The claim has every non-integer element, native booleans among them, returned
  untouched. The code selects the elements to replace by \<^verbatim>\<open>isinstance(arg, int)\<close>, which
  is true of a native boolean: from \<^verbatim>\<open>(7, True, 2.0)\<close> and a new environment it returns
  \<^verbatim>\<open>(u0, u1, 2.0)\<close>, the boolean replaced by the symbol \<^verbatim>\<open>u1\<close>.
\<close>

theorem unspecializer_on_int_bool_float:
  "unspecialize_ints_with_unbacked_symints no_bindings new_shape_env
     (PTuple [PInt 7, PBool True, PFloat (FloatVal 2)]) False
   = (Inr (PTuple [PSymInt (SymInt 0 None), PSymInt (SymInt 1 None), PFloat (FloatVal 2)]),
      \<lparr>unbacked_symint_counter = 2, pending_fresh_unbacked_symbols = [0, 1],
       ignore_fresh_unbacked_symbols = False\<rparr>)"
  by (simp add: unspecialize_ints_with_unbacked_symints_def unspecialize_int_def
      create_unbacked_symint_def new_shape_env_def)

text \<open>
  C10. For every carried tuple with a native boolean at position \<open>i\<close>: without
  bindings the unspecializer returns a tuple, and whenever it returns a tuple (with
  bindings, provided the binding function hands no symbol back) the tuple has the
  arity of the carried tuple and holds at position \<open>i\<close>, instead of the boolean, a
  symbol the environment had not handed out before the call and has handed out after it.
\<close>

theorem unspecializer_replaces_bool:
  assumes "i < length xs" and "xs ! i = PBool b"
  shows "(\<exists>ys env'. unspecialize_ints_with_unbacked_symints cub env (PTuple xs) False
                     = (Inr (PTuple ys), env'))
       \<and> (\<forall>bind ys env'.
            (bind \<longrightarrow> keeps_counter cub) \<longrightarrow>
            unspecialize_ints_with_unbacked_symints cub env (PTuple xs) bind
              = (Inr (PTuple ys), env') \<longrightarrow>
            length ys = length xs \<and> ys ! i \<noteq> xs ! i \<and>
            (\<exists>k. ys ! i = PSymInt (SymInt k None) \<and> unbacked_symint_counter env \<le> k \<and>
                 k < unbacked_symint_counter env'))"
proof (intro conjI allI impI)
  show "\<exists>ys env'. unspecialize_ints_with_unbacked_symints cub env (PTuple xs) False
                    = (Inr (PTuple ys), env')"
    using unspecialize_args_total [of cub xs env] by (simp add: unspecialize_tuple_unfold)
next
  fix bind ys env'
  assume k: "bind \<longrightarrow> keeps_counter cub"
    and r: "unspecialize_ints_with_unbacked_symints cub env (PTuple xs) bind
              = (Inr (PTuple ys), env')"
  from r have "unspecialize_args cub bind xs env = (Inr ys, env')"
    by (simp add: unspecialize_tuple_unfold)
  from unspecialize_args_result [OF _ this] k assms
  have l: "length ys = length xs"
    and s: "\<exists>k. ys ! i = PSymInt (SymInt k None) \<and> unbacked_symint_counter env \<le> k \<and>
                k < unbacked_symint_counter env'"
    by auto
  show "length ys = length xs"
    by (rule l)
  show "ys ! i \<noteq> xs ! i"
    using s assms(2) by auto
  show "\<exists>k. ys ! i = PSymInt (SymInt k None) \<and> unbacked_symint_counter env \<le> k \<and>
            k < unbacked_symint_counter env'"
    by (rule s)
qed

theorem unspecializer_replaces_bool_witness:
  "(1::nat) < length [PFloat (FloatVal 2), PBool False] \<and>
   [PFloat (FloatVal 2), PBool False] ! 1 = PBool False \<and>
   keeps_counter no_bindings \<and>
   (\<exists>ys env'. unspecialize_ints_with_unbacked_symints no_bindings new_shape_env
                 (PTuple [PFloat (FloatVal 2), PBool False]) False = (Inr (PTuple ys), env'))
   \<and> unspecialize_ints_with_unbacked_symints no_bindings new_shape_env
       (PTuple [PFloat (FloatVal 2), PBool False]) True
     = (Inr (PTuple [PFloat (FloatVal 2), PSymInt (SymInt 0 None)]),
        \<lparr>unbacked_symint_counter = 1, pending_fresh_unbacked_symbols = [0],
         ignore_fresh_unbacked_symbols = False\<rparr>)"
proof -
  have i: "(1::nat) < length [PFloat (FloatVal 2), PBool False]"
    and b: "[PFloat (FloatVal 2), PBool False] ! 1 = PBool False"
    by simp_all
  have e: "unspecialize_ints_with_unbacked_symints no_bindings new_shape_env
             (PTuple [PFloat (FloatVal 2), PBool False]) True
           = (Inr (PTuple [PFloat (FloatVal 2), PSymInt (SymInt 0 None)]),
              \<lparr>unbacked_symint_counter = 1, pending_fresh_unbacked_symbols = [0],
               ignore_fresh_unbacked_symbols = False\<rparr>)"
    by (simp add: unspecialize_ints_with_unbacked_symints_def unspecialize_int_def
        create_unbacked_symint_def new_shape_env_def no_bindings_def)
  have k: "keeps_counter no_bindings"
    by (simp add: keeps_counter_def no_bindings_def)
  show ?thesis
    using unspecializer_replaces_bool [OF i b, of no_bindings new_shape_env] i b e k
    by blast
qed

section \<open>Properties of the fake-tensor-mode adapter\<close>

text \<open>
  What the adapter returns when the one evaluation of the body, on the carried values
  followed by the additional ones and with fresh symbols ignored, returns a tuple: a
  tuple of the arity of the body's result, with a symbol allocated after the body's
  evaluation in the place of every instance of \<^verbatim>\<open>int\<close>, and every other element (a tensor
  with its size and dtype, a float, a symbolic integer) as the body returned it. The
  condition and the binding function play no part.
\<close>

lemma fake_tensor_mode_on_tuple_result:
  assumes "body_fn (xs @ zs) (env\<lparr>ignore_fresh_unbacked_symbols := True\<rparr>)
             = (Inr (PTuple out), env1)"
  shows "\<exists>ys env'.
           while_loop_fake_tensor_mode cub env cond_fn body_fn (PTuple xs) (PTuple zs)
             = (Inr (PTuple ys), env') \<and>
           length ys = length out \<and>
           (\<forall>i<length out.
              (isinstance_int (out ! i) \<longrightarrow>
                 (\<exists>k. ys ! i = PSymInt (SymInt k None) \<and> unbacked_symint_counter env1 \<le> k \<and>
                      k < unbacked_symint_counter env')) \<and>
              (\<not> isinstance_int (out ! i) \<longrightarrow> ys ! i = out ! i))"
proof -
  define env2 where
    "env2 = env1\<lparr>ignore_fresh_unbacked_symbols := ignore_fresh_unbacked_symbols env\<rparr>"
  obtain ys env' where u: "unspecialize_args cub False out env2 = (Inr ys, env')"
    using unspecialize_args_total by blast
  have f: "while_loop_fake_tensor_mode cub env cond_fn body_fn (PTuple xs) (PTuple zs)
             = (Inr (PTuple ys), env')"
    using assms u
    by (simp add: while_loop_fake_tensor_mode_def with_ignore_fresh_unbacked_symbols_def
        star_args2_def star_args_def Let_def env2_def
        unspecialize_ints_with_unbacked_symints_def)
  have c: "unbacked_symint_counter env2 = unbacked_symint_counter env1"
    by (simp add: env2_def)
  from unspecialize_args_result [OF _ u] c
  have "length ys = length out \<and>
    (\<forall>i<length out.
        (isinstance_int (out ! i) \<longrightarrow>
           (\<exists>k. ys ! i = PSymInt (SymInt k None) \<and> unbacked_symint_counter env1 \<le> k \<and>
                k < unbacked_symint_counter env')) \<and>
        (\<not> isinstance_int (out ! i) \<longrightarrow> ys ! i = out ! i))"
    by auto
  with f show ?thesis
    by blast
qed

text \<open>
  C5. The claim has the adapter return a tuple with the per-element signature of the
  carried inputs. With the carried tuple \<^verbatim>\<open>(t, True)\<close>, \<^verbatim>\<open>t\<close> a placeholder tensor of size
  \<^verbatim>\<open>[2, 3]\<close> and dtype \<^verbatim>\<open>float32\<close>, and the body \<^verbatim>\<open>body_fn(t, b) = (t, not b)\<close>, which
  returns \<^verbatim>\<open>(t, False)\<close> and so keeps the signature, the adapter returns \<^verbatim>\<open>(t, u0)\<close>: the
  native boolean has become a symbolic integer, the unspecializer's test
  \<^verbatim>\<open>isinstance(arg, int)\<close> being true of it. The condition, which raises whenever it is
  evaluated, is not evaluated.
\<close>

theorem fake_tensor_mode_turns_bool_into_symbol:
  "fake_negate [PTensor (Tensor [2, 3] float32 []), PBool True]
     (new_shape_env\<lparr>ignore_fresh_unbacked_symbols := True\<rparr>)
   = (Inr (PTuple [PTensor (Tensor [2, 3] float32 []), PBool False]),
      new_shape_env\<lparr>ignore_fresh_unbacked_symbols := True\<rparr>)
   \<and> while_loop_fake_tensor_mode no_bindings new_shape_env fake_raise fake_negate
       (PTuple [PTensor (Tensor [2, 3] float32 []), PBool True]) (PTuple [])
     = (Inr (PTuple [PTensor (Tensor [2, 3] float32 []), PSymInt (SymInt 0 None)]),
        \<lparr>unbacked_symint_counter = 1, pending_fresh_unbacked_symbols = [0],
         ignore_fresh_unbacked_symbols = False\<rparr>)"
  by (simp add: while_loop_fake_tensor_mode_def with_ignore_fresh_unbacked_symbols_def
      star_args2_def star_args_def fake_negate_def
      unspecialize_ints_with_unbacked_symints_def unspecialize_int_def
      create_unbacked_symint_def new_shape_env_def)

section \<open>Properties of the subgraph names\<close>

lemma digit_char_inj:
  assumes "a < 10" "b < 10" "digit_char a = digit_char b"
  shows "a = b"
proof -
  have d: "distinct ''0123456789''" by simp
  have l: "a < length ''0123456789''" "b < length ''0123456789''" using assms by simp_all
  from assms(3) nth_eq_iff_index_eq [OF d l] show ?thesis
    by (simp add: digit_char_def)
qed

lemma decimal_nonempty: "decimal n \<noteq> []"
  by (subst decimal.simps) simp

lemma decimal_inj: "decimal m = decimal n \<Longrightarrow> m = n"
proof (induction m arbitrary: n rule: decimal.induct)
  case (1 m)
  show ?case
  proof (cases "m < 10")
    case True
    then have m: "decimal m = [digit_char m]" by (subst decimal.simps) simp
    show ?thesis
    proof (cases "n < 10")
      case n: True
      then have "decimal n = [digit_char n]" by (subst decimal.simps) simp
      with m "1.prems" True n show ?thesis by (auto dest: digit_char_inj)
    next
      case n: False
      then have "decimal n = decimal (n div 10) @ [digit_char (n mod 10)]"
        by (subst decimal.simps) simp
      with m "1.prems" decimal_nonempty [of "n div 10"] show ?thesis by simp
    qed
  next
    case False
    then have m: "decimal m = decimal (m div 10) @ [digit_char (m mod 10)]"
      by (subst decimal.simps) simp
    show ?thesis
    proof (cases "n < 10")
      case n: True
      then have "decimal n = [digit_char n]" by (subst decimal.simps) simp
      with m "1.prems" decimal_nonempty [of "m div 10"] show ?thesis by simp
    next
      case n: False
      then have "decimal n = decimal (n div 10) @ [digit_char (n mod 10)]"
        by (subst decimal.simps) simp
      with m "1.prems" have e: "decimal (m div 10) = decimal (n div 10)"
        and d: "digit_char (m mod 10) = digit_char (n mod 10)" by simp_all
      from "1.IH" [OF False e] have q: "m div 10 = n div 10" .
      from digit_char_inj [OF _ _ d] have r: "m mod 10 = n mod 10" by simp
      from q r show ?thesis by (metis div_mult_mod_eq)
    qed
  qed
qed

lemma cond_graph_name_inj: "cond_graph_name i = cond_graph_name j \<Longrightarrow> i = j"
  by (simp add: cond_graph_name_def decimal_inj)

lemma body_graph_name_inj: "body_graph_name i = body_graph_name j \<Longrightarrow> i = j"
  by (simp add: body_graph_name_def decimal_inj)

lemma cond_body_names_differ: "cond_graph_name i \<noteq> body_graph_name j"
  by (simp add: cond_graph_name_def body_graph_name_def)

text \<open>
  The root has finitely many attributes and the names differ from suffix to suffix, so
  from every suffix on some condition name is free, and the probing loop finds the
  first one.
\<close>

lemma free_cond_name_exists:
  "\<exists>j. i \<le> j \<and> \<not> hasattr r (cond_graph_name j)"
proof (rule ccontr)
  assume "\<not> ?thesis"
  then have all: "\<And>j. i \<le> j \<Longrightarrow> cond_graph_name j \<in> set (map fst r)"
    by (auto simp: hasattr_def)
  have "cond_graph_name ` {i .. i + length r} \<subseteq> set (map fst r)"
    using all by auto
  then have "card (cond_graph_name ` {i .. i + length r}) \<le> card (set (map fst r))"
    by (intro card_mono) auto
  moreover have "card (cond_graph_name ` {i .. i + length r}) = card {i .. i + length r}"
    by (intro card_image inj_onI) (rule cond_graph_name_inj)
  moreover have "card (set (map fst r)) \<le> length r"
    using card_length [of "map fst r"] by simp
  ultimately show False by simp
qed

lemma probe_finds:
  assumes "\<not> hasattr r (cond_graph_name j)" "i \<le> j"
  shows "\<exists>k. probe_cond_graph_name r i = Some k \<and> i \<le> k \<and> k \<le> j \<and>
             \<not> hasattr r (cond_graph_name k) \<and> (\<forall>m. i \<le> m \<and> m < k \<longrightarrow> hasattr r (cond_graph_name m))"
  using assms
proof (induction "j - i" arbitrary: i)
  case 0
  then have "i = j" by simp
  with 0 show ?case
    by (subst probe_cond_graph_name.simps) auto
next
  case (Suc d)
  show ?case
  proof (cases "hasattr r (cond_graph_name i)")
    case False
    then show ?thesis
      using Suc.prems by (subst probe_cond_graph_name.simps) auto
  next
    case True
    from Suc have "d = j - (i + 1)" "i + 1 \<le> j" by simp_all
    from Suc.hyps(1) [OF this(1) Suc.prems(1) this(2)]
    obtain k where k: "probe_cond_graph_name r (i + 1) = Some k" "i + 1 \<le> k" "k \<le> j"
      "\<not> hasattr r (cond_graph_name k)" "\<forall>m. i + 1 \<le> m \<and> m < k \<longrightarrow> hasattr r (cond_graph_name m)"
      by blast
    have "\<forall>m. i \<le> m \<and> m < k \<longrightarrow> hasattr r (cond_graph_name m)"
    proof (intro allI impI)
      fix m assume "i \<le> m \<and> m < k"
      then show "hasattr r (cond_graph_name m)"
        using True k(5) by (cases "m = i") auto
    qed
    with True k show ?thesis
      by (subst probe_cond_graph_name.simps) auto
  qed
qed

lemma hasattr_register_module:
  "hasattr (register_module r n g) x \<longleftrightarrow> hasattr r x \<or> x = n"
  by (auto simp: hasattr_def register_module_def)

lemma tracing_names_once:
  assumes "names_paired r"
  shows "\<exists>i. while_loop_tracing_names r c b
               = Some (Inr (register_module (register_module r (cond_graph_name i) c)
                              (body_graph_name i) b,
                            cond_graph_name i, body_graph_name i))
             \<and> (\<forall>m<i. hasattr r (cond_graph_name m))
             \<and> \<not> hasattr r (cond_graph_name i) \<and> \<not> hasattr r (body_graph_name i)"
proof -
  obtain j where "\<not> hasattr r (cond_graph_name j)"
    using free_cond_name_exists [of 0 r] by blast
  from probe_finds [OF this, of 0] obtain i where
    p: "probe_cond_graph_name r 0 = Some i" and f: "\<not> hasattr r (cond_graph_name i)"
    and t: "\<forall>m. 0 \<le> m \<and> m < i \<longrightarrow> hasattr r (cond_graph_name m)"
    by blast
  from f assms have "\<not> hasattr r (body_graph_name i)"
    unfolding names_paired_def by blast
  with p f t show ?thesis
    by (auto simp: while_loop_tracing_names_def)
qed

lemma names_paired_register:
  assumes "names_paired r"
  shows "names_paired (register_module (register_module r (cond_graph_name i) c)
                         (body_graph_name i) b)"
  unfolding names_paired_def
proof (intro allI impI)
  fix k
  assume "hasattr (register_module (register_module r (cond_graph_name i) c)
                     (body_graph_name i) b) (body_graph_name k)"
  then consider "hasattr r (body_graph_name k)" | "body_graph_name k = cond_graph_name i"
    | "body_graph_name k = body_graph_name i"
    by (auto simp: hasattr_register_module)
  then show "hasattr (register_module (register_module r (cond_graph_name i) c)
                     (body_graph_name i) b) (cond_graph_name k)"
  proof cases
    case 1
    with assms show ?thesis
      by (auto simp: hasattr_register_module names_paired_def)
  next
    case 2
    with cond_body_names_differ [of i k] show ?thesis by simp
  next
    case 3
    then have "k = i" by (rule body_graph_name_inj)
    then show ?thesis by (simp add: hasattr_register_module)
  qed
qed

text \<open>
  C4, as the claim states it, fails: the loop probes the condition name only, and the
  body name of the suffix it stops at is asserted free, not probed. In a root that has
  an attribute \<^verbatim>\<open>while_loop_body_graph_0\<close> and no \<^verbatim>\<open>while_loop_cond_graph_0\<close>, the adapter
  stops at suffix 0 and fails with the assertion's error, though both names of suffix
  1 are free.
\<close>

theorem tracing_names_body_name_taken:
  "while_loop_tracing_names [(''while_loop_body_graph_0'', Other_attribute)]
     ''cond_graph'' ''body_graph'' = Some (Inl (AssertionError (Msg [])))
   \<and> \<not> hasattr [(''while_loop_body_graph_0'', Other_attribute :: string attribute)]
         (cond_graph_name 1)
   \<and> \<not> hasattr [(''while_loop_body_graph_0'', Other_attribute :: string attribute)]
         (body_graph_name 1)"
  by (simp add: while_loop_tracing_names_def probe_cond_graph_name.simps hasattr_def
      cond_graph_name_def body_graph_name_def register_module_def decimal.simps digit_char_def)

text \<open>
  C4, amended. The adapter probes the root's namespace sequentially from suffix 0,
  incrementing the suffix until the condition name is free, and asserts that the body
  name of that suffix is free. For every prior state of the namespace in which a body
  name is taken only where the condition name of the same suffix is taken, tracing
  twice into the same root succeeds both times and registers two pairs of names, of
  suffixes \<open>i < j\<close>: \<open>i\<close> is the first suffix whose condition name was free, \<open>j\<close> the next
  one; none of the four names was an attribute of the root before, and the names of
  the two pairs differ. In a root with no such names the suffixes are 0 and 1.
\<close>

theorem tracing_twice_registers_distinct_names:
  assumes "names_paired tracer_root"
  shows "\<exists>i j root1 root2.
           while_loop_tracing_names tracer_root c1 b1
             = Some (Inr (root1, cond_graph_name i, body_graph_name i))
         \<and> while_loop_tracing_names root1 c2 b2
             = Some (Inr (root2, cond_graph_name j, body_graph_name j))
         \<and> root1 = tracer_root @
             [(cond_graph_name i, Submodule c1), (body_graph_name i, Submodule b1)]
         \<and> root2 = tracer_root @
             [(cond_graph_name i, Submodule c1), (body_graph_name i, Submodule b1),
              (cond_graph_name j, Submodule c2), (body_graph_name j, Submodule b2)]
         \<and> (\<forall>m<i. hasattr tracer_root (cond_graph_name m))
         \<and> \<not> hasattr tracer_root (cond_graph_name i)
         \<and> \<not> hasattr tracer_root (body_graph_name i)
         \<and> i < j
         \<and> (\<forall>m. i < m \<and> m < j \<longrightarrow> hasattr tracer_root (cond_graph_name m))
         \<and> \<not> hasattr tracer_root (cond_graph_name j)
         \<and> \<not> hasattr tracer_root (body_graph_name j)
         \<and> cond_graph_name i \<noteq> cond_graph_name j
         \<and> body_graph_name i \<noteq> body_graph_name j"
proof -
  obtain i where
    one: "while_loop_tracing_names tracer_root c1 b1
            = Some (Inr (register_module (register_module tracer_root (cond_graph_name i) c1)
                           (body_graph_name i) b1,
                         cond_graph_name i, body_graph_name i))"
    and below_i: "\<forall>m<i. hasattr tracer_root (cond_graph_name m)"
    and free_i: "\<not> hasattr tracer_root (cond_graph_name i)"
      "\<not> hasattr tracer_root (body_graph_name i)"
    using tracing_names_once [OF assms] by blast
  define root1 where
    "root1 = register_module (register_module tracer_root (cond_graph_name i) c1)
               (body_graph_name i) b1"
  have in1: "hasattr root1 x \<longleftrightarrow> hasattr tracer_root x \<or> x = cond_graph_name i
               \<or> x = body_graph_name i" for x
    by (auto simp: root1_def hasattr_register_module)
  have "names_paired root1"
    unfolding root1_def by (rule names_paired_register [OF assms])
  from tracing_names_once [OF this] obtain j where
    two: "while_loop_tracing_names root1 c2 b2
            = Some (Inr (register_module (register_module root1 (cond_graph_name j) c2)
                           (body_graph_name j) b2,
                         cond_graph_name j, body_graph_name j))"
    and below_j: "\<forall>m<j. hasattr root1 (cond_graph_name m)"
    and free_j: "\<not> hasattr root1 (cond_graph_name j)" "\<not> hasattr root1 (body_graph_name j)"
    by blast
  have ne: "j \<noteq> i"
    using free_j(1) in1 by auto
  have "\<not> j < i"
  proof
    assume "j < i"
    with below_i have "hasattr tracer_root (cond_graph_name j)" by blast
    with free_j(1) in1 show False by simp
  qed
  with ne have lt: "i < j" by simp
  have between: "\<forall>m. i < m \<and> m < j \<longrightarrow> hasattr tracer_root (cond_graph_name m)"
  proof (intro allI impI)
    fix m assume m: "i < m \<and> m < j"
    with below_j have "hasattr root1 (cond_graph_name m)" by blast
    moreover have "cond_graph_name m \<noteq> cond_graph_name i"
      using m cond_graph_name_inj [of m i] by auto
    moreover have "cond_graph_name m \<noteq> body_graph_name i"
      by (rule cond_body_names_differ)
    ultimately show "hasattr tracer_root (cond_graph_name m)"
      using in1 by simp
  qed
  have cne: "cond_graph_name i \<noteq> cond_graph_name j"
    using lt cond_graph_name_inj [of i j] by auto
  have bne: "body_graph_name i \<noteq> body_graph_name j"
    using lt body_graph_name_inj [of i j] by auto
  have r2: "register_module (register_module root1 (cond_graph_name j) c2) (body_graph_name j) b2
        = tracer_root @
             [(cond_graph_name i, Submodule c1), (body_graph_name i, Submodule b1),
              (cond_graph_name j, Submodule c2), (body_graph_name j, Submodule b2)]"
    by (simp add: root1_def register_module_def)
  have r1: "root1 = tracer_root @
             [(cond_graph_name i, Submodule c1), (body_graph_name i, Submodule b1)]"
    by (simp add: root1_def register_module_def)
  have free_j': "\<not> hasattr tracer_root (cond_graph_name j)"
    "\<not> hasattr tracer_root (body_graph_name j)"
    using free_j in1 by simp_all
  from one have one': "while_loop_tracing_names tracer_root c1 b1
                         = Some (Inr (root1, cond_graph_name i, body_graph_name i))"
    by (simp add: root1_def)
  from two r2 have two': "while_loop_tracing_names root1 c2 b2
      = Some (Inr (tracer_root @
             [(cond_graph_name i, Submodule c1), (body_graph_name i, Submodule b1),
              (cond_graph_name j, Submodule c2), (body_graph_name j, Submodule b2)],
           cond_graph_name j, body_graph_name j))"
    by simp
  from one' two' r1 below_i free_i lt between free_j' cne bne show ?thesis
    by blast
qed

theorem tracing_twice_registers_distinct_names_witness:
  "names_paired ([] :: string root_module)
   \<and> while_loop_tracing_names [] ''cond_graph'' ''body_graph''
     = Some (Inr ([(''while_loop_cond_graph_0'', Submodule ''cond_graph''),
                   (''while_loop_body_graph_0'', Submodule ''body_graph'')],
                  ''while_loop_cond_graph_0'', ''while_loop_body_graph_0''))
   \<and> while_loop_tracing_names
       [(''while_loop_cond_graph_0'', Submodule ''cond_graph''),
        (''while_loop_body_graph_0'', Submodule ''body_graph'')] ''cond_graph'' ''body_graph''
     = Some (Inr ([(''while_loop_cond_graph_0'', Submodule ''cond_graph''),
                   (''while_loop_body_graph_0'', Submodule ''body_graph''),
                   (''while_loop_cond_graph_1'', Submodule ''cond_graph''),
                   (''while_loop_body_graph_1'', Submodule ''body_graph'')],
                  ''while_loop_cond_graph_1'', ''while_loop_body_graph_1''))"
proof -
  have p: "names_paired ([] :: string root_module)"
    by (simp add: names_paired_def hasattr_def)
  have no: "\<not> hasattr ([] :: string root_module) x" for x
    by (simp add: hasattr_def)
  from tracing_twice_registers_distinct_names
    [OF p, of "''cond_graph''" "''body_graph''" "''cond_graph''" "''body_graph''"]
  obtain i j root1 root2 where
    one: "while_loop_tracing_names [] ''cond_graph'' ''body_graph''
            = Some (Inr (root1, cond_graph_name i, body_graph_name i))"
    and two: "while_loop_tracing_names root1 ''cond_graph'' ''body_graph''
            = Some (Inr (root2, cond_graph_name j, body_graph_name j))"
    and r1: "root1 = [] @ [(cond_graph_name i, Submodule ''cond_graph''),
                           (body_graph_name i, Submodule ''body_graph'')]"
    and r2: "root2 = [] @ [(cond_graph_name i, Submodule ''cond_graph''),
                           (body_graph_name i, Submodule ''body_graph''),
                           (cond_graph_name j, Submodule ''cond_graph''),
                           (body_graph_name j, Submodule ''body_graph'')]"
    and below: "\<forall>m<i. hasattr ([] :: string root_module) (cond_graph_name m)"
    and lt: "i < j"
    and between: "\<forall>m. i < m \<and> m < j \<longrightarrow> hasattr ([] :: string root_module) (cond_graph_name m)"
    by blast
  have i: "i = 0"
  proof (rule ccontr)
    assume "i \<noteq> 0"
    then have "0 < i" by simp
    with below no show False by blast
  qed
  have j: "j = 1"
  proof (rule ccontr)
    assume "j \<noteq> 1"
    with lt i have "i < 1 \<and> 1 < j" by simp
    with between no show False by blast
  qed
  have n: "cond_graph_name 0 = ''while_loop_cond_graph_0''"
    "body_graph_name 0 = ''while_loop_body_graph_0''"
    "cond_graph_name 1 = ''while_loop_cond_graph_1''"
    "body_graph_name 1 = ''while_loop_body_graph_1''"
    by (simp_all add: cond_graph_name_def body_graph_name_def decimal.simps digit_char_def)
  from one two r1 r2 i j n p show ?thesis
    by simp
qed

section \<open>Properties of the functionalization adapter\<close>

text \<open>
  C3. With the functionalized condition and body and the unwrapped inputs: the checks
  run in the order mutation of \<^verbatim>\<open>cond_fn\<close>, aliasing of \<^verbatim>\<open>cond_fn\<close>, mutation of \<^verbatim>\<open>body_fn\<close>,
  aliasing of \<^verbatim>\<open>body_fn\<close>, and the first one that detects its potential raises
  \<^verbatim>\<open>UnsupportedAliasMutationException\<close> with a message that names the function checked;
  when all four detect nothing the operator is invoked with the functionalized
  condition and body and the unwrapped inputs, and what it returns is returned wrapped
  by \<^verbatim>\<open>ctx.wrap_tensors\<close>.
\<close>

theorem while_loop_func_checks_then_invokes:
  assumes "unwrapped_carried_inputs = unwrap_tensors ctx carried_inputs"
    and "unwrapped_additional_inputs = unwrap_tensors ctx additional_inputs"
    and "unwrapped_inputs = unwrapped_carried_inputs @ unwrapped_additional_inputs"
    and "functional_cond_fn = functionalize ctx (maybe_run_with_interpreter utils cond_fn)"
    and "functional_body_fn = functionalize ctx (maybe_run_with_interpreter utils body_fn)"
    and "pre_dispatch = (case mode_pre_dispatch ctx of None \<Rightarrow> False | Some p \<Rightarrow> p)"
    and "mutation = (\<lambda>fn. has_potential_branch_input_mutation utils fn unwrapped_inputs pre_dispatch)"
    and "alias = (\<lambda>fn. has_potential_branch_input_alias utils fn unwrapped_inputs pre_dispatch)"
    and "result = while_loop_func ctx utils cond_fn body_fn carried_inputs additional_inputs"
  shows "(mutation functional_cond_fn = Inr True \<longrightarrow>
            result = Some (Inl (UnsupportedAliasMutationException
                       (Msg ''torch.while_loop's cond_fn might be modifying the input!''))))
       \<and> (mutation functional_cond_fn = Inr False \<longrightarrow> alias functional_cond_fn = Inr True \<longrightarrow>
            result = Some (Inl (UnsupportedAliasMutationException
                       (Msg ''torch.while_loop's cond_fn might be aliasing the input!''))))
       \<and> (mutation functional_cond_fn = Inr False \<longrightarrow> alias functional_cond_fn = Inr False \<longrightarrow>
          mutation functional_body_fn = Inr True \<longrightarrow>
            result = Some (Inl (UnsupportedAliasMutationException
                       (Msg ''torch.while_loop's body_fn might be modifying the input!''))))
       \<and> (mutation functional_cond_fn = Inr False \<longrightarrow> alias functional_cond_fn = Inr False \<longrightarrow>
          mutation functional_body_fn = Inr False \<longrightarrow> alias functional_body_fn = Inr True \<longrightarrow>
            result = Some (Inl (UnsupportedAliasMutationException
                       (Msg ''torch.while_loop's body_fn might be aliasing the input!''))))
       \<and> (mutation functional_cond_fn = Inr False \<longrightarrow> alias functional_cond_fn = Inr False \<longrightarrow>
          mutation functional_body_fn = Inr False \<longrightarrow> alias functional_body_fn = Inr False \<longrightarrow>
            result =
              (case while_loop_op utils functional_cond_fn functional_body_fn
                      (PTuple unwrapped_carried_inputs) (PTuple unwrapped_additional_inputs) of
                 None \<Rightarrow> None
               | Some (Inl e) \<Rightarrow> Some (Inl e)
               | Some (Inr ret) \<Rightarrow> Some (Inr (wrap_tensors ctx ret))))"
  unfolding assms while_loop_func_def Let_def
  by (simp split: sum.splits option.splits)

theorem while_loop_func_checks_then_invokes_witness:
  "while_loop_func plain_ctx lenient_utils below_3 incr [PInt 0] []
     = Some (Inr (PTuple [PInt 3]))
   \<and> while_loop_func plain_ctx tuple_flagging_utils below_3 incr [PInt 0] []
     = Some (Inl (UnsupportedAliasMutationException
                    (Msg ''torch.while_loop's body_fn might be modifying the input!'')))"
proof -
  have d: "while_loop_dense below_3 incr (PTuple [PInt 0]) (PTuple []) = Some (Inr (PTuple [PInt 3]))"
    by (simp add: while_loop_dense_def while_loop_dense_loop.simps star_args_def below_3_def
        incr_def)
  have a: "while_loop_func plain_ctx lenient_utils below_3 incr [PInt 0] []
             = Some (Inr (PTuple [PInt 3]))"
    using while_loop_func_checks_then_invokes
      [where ctx = plain_ctx and utils = lenient_utils and cond_fn = below_3 and body_fn = incr
         and carried_inputs = "[PInt 0]" and additional_inputs = "[]", OF refl refl refl refl refl
         refl refl refl refl]
      d
    by (simp add: plain_ctx_def lenient_utils_def)
  have b: "while_loop_func plain_ctx tuple_flagging_utils below_3 incr [PInt 0] []
             = Some (Inl (UnsupportedAliasMutationException
                    (Msg ''torch.while_loop's body_fn might be modifying the input!'')))"
    using while_loop_func_checks_then_invokes
      [where ctx = plain_ctx and utils = tuple_flagging_utils and cond_fn = below_3
         and body_fn = incr and carried_inputs = "[PInt 0]" and additional_inputs = "[]",
       OF refl refl refl refl refl refl refl refl refl]
    by (simp add: plain_ctx_def tuple_flagging_utils_def below_3_def incr_def)
  from a b show ?thesis
    by (rule conjI)
qed

section \<open>Properties of the validation layer\<close>

text \<open>
  C8. Whatever is passed as \<^verbatim>\<open>carried_inputs\<close> that is no tuple (a single tensor, say),
  \<^verbatim>\<open>WhileLoopOp.__call__\<close> raises \<^verbatim>\<open>RuntimeError\<close> on its first check, before the dispatch.
  The result is the same for every condition, body, validator and dispatch, also for
  callables that raise or do not return when they are evaluated: none of them is
  evaluated.
\<close>

theorem non_tuple_carried_inputs_rejected:
  assumes "\<not> isinstance_tuple carried_inputs"
  shows "WhileLoopOp_call validate_subgraph_args_types dispatch cond_fn body_fn
           carried_inputs additional_inputs
         = Some (Inl (RuntimeError
                  (MsgType ''carried_inputs must be a tuple, got '' carried_inputs)))"
  using assms by (cases carried_inputs) (simp_all add: WhileLoopOp_call_def)

theorem non_tuple_carried_inputs_rejected_witness:
  "\<not> isinstance_tuple (PTensor (Tensor [3] float32 [1, 2, 3]))
   \<and> WhileLoopOp_call accept_all while_loop_dense always_raise always_raise
       (PTensor (Tensor [3] float32 [1, 2, 3])) (PTuple [])
     = Some (Inl (RuntimeError
              (MsgType ''carried_inputs must be a tuple, got ''
                 (PTensor (Tensor [3] float32 [1, 2, 3])))))"
proof -
  have n: "\<not> isinstance_tuple (PTensor (Tensor [3] float32 [1, 2, 3]))"
    by simp
  from non_tuple_carried_inputs_rejected
    [OF n, of accept_all while_loop_dense always_raise always_raise "PTuple []"] n
  show ?thesis
    by (rule conjI [rotated])
qed

end
